theory Spec2Isabelle
  imports Complex_Main "HOL-Library.Monad_Syntax"
begin

section \<open>Trajectory-derived analytics of the Argo float dashboard\<close>

text \<open>
  The development embeds two pieces of the dashboard: \<^verbatim>\<open>generateMockDriftData\<close> (the drift
  series builder of the chart mock-data module) and the profile grouping loop inside the
  effect of \<^verbatim>\<open>ProfileOverlayChart\<close>.

  Numbers. A JavaScript \<^verbatim>\<open>number\<close> is modelled as an exact \<^typ>\<open>real\<close>, and \<^verbatim>\<open>Math.sin\<close>,
  \<^verbatim>\<open>Math.cos\<close>, \<^verbatim>\<open>Math.sqrt\<close> and \<^verbatim>\<open>Math.atan2\<close> as the exact functions. The program computes
  in IEEE-754 doubles, and it differs from this model wherever rounding decides the outcome.
  Two such places matter here. The Haversine term \<open>a\<close> is at most 1 in exact arithmetic, but
  for some nearly antipodal pairs of points its rounded value exceeds 1; then
  \<^verbatim>\<open>Math.sqrt(1 - a)\<close> is \<^verbatim>\<open>NaN\<close>, and so are the distance, the speed and every later cumulative
  distance. And two values that are equal in exact arithmetic, such as the displacement and
  the path length along a great circle, can differ in the last place. The theorems below
  are therefore limited to statements that rounding does not decide: counts, order and
  copied fields, ranges that the rounded values also keep, values stated up to a tolerance,
  and the frame conditions on the store.

  The one place where the code itself guards against a non-number, the time difference of
  two parsed dates, keeps that case: a date that does not parse has no time value (\<open>None\<close>,
  JavaScript's \<^verbatim>\<open>NaN\<close>), and a comparison with it is false.
\<close>

subsection \<open>Data model\<close>

text \<open>
  \<^verbatim>\<open>interface TrajectoryPoint { latitude; longitude; timestamp }\<close> of the chart mock-data
  module. TypeScript types are structural: the builder accepts any object that has at least
  these fields, which is what an extensible record scheme expresses.
\<close>

record TrajectoryPoint =
  latitude :: real
  longitude :: real
  timestamp :: string

text \<open>
  \<^verbatim>\<open>interface DriftData { timestamp; speed; direction; latitude; longitude; distance;
  displacement }\<close>: the three fields it shares with a point, and four derived ones.
\<close>

record DriftData = TrajectoryPoint +
  speed :: real
  direction :: real
  distance :: real
  displacement :: real

datatype point_status = active | completed | current

text \<open>
  \<^verbatim>\<open>interface TrajectoryPoint\<close> of the trajectory data module, the element type of
  \<^verbatim>\<open>FloatTrajectory.points\<close>: the optional readings are \<open>None\<close> when absent. The field
  \<^verbatim>\<open>id\<close> is called \<open>point_id\<close> here.
\<close>

record FloatTrajectoryPoint = TrajectoryPoint +
  point_id :: real
  depth :: "real option"
  temperature :: "real option"
  salinity :: "real option"
  status :: point_status

subsection \<open>JavaScript primitives\<close>

text \<open>
  \<^verbatim>\<open>Math.atan2(y, x)\<close> on reals: the angle of the point \<open>(x, y)\<close> in \<open>(-pi, pi]\<close>, and 0 at
  the origin.
\<close>

definition Math_atan2 :: "real \<Rightarrow> real \<Rightarrow> real" where
  "Math_atan2 y x =
     (if 0 < x then arctan (y / x)
      else if x < 0 then (if 0 \<le> y then arctan (y / x) + pi else arctan (y / x) - pi)
      else if 0 < y then pi / 2
      else if y < 0 then - (pi / 2)
      else 0)"

text \<open>
  The remainder operator \<^verbatim>\<open>%\<close>: the quotient is truncated towards zero, so the result has
  the sign of the dividend. The code only divides by the literal 360.
\<close>

definition js_rem :: "real \<Rightarrow> real \<Rightarrow> real" where
  "js_rem x y =
     x - y * of_int (if 0 \<le> x / y then \<lfloor>x / y\<rfloor> else \<lceil>x / y\<rceil>)"

text \<open>
  Reading \<^verbatim>\<open>xs[i].field\<close>: an index out of range yields \<^verbatim>\<open>undefined\<close>, and the property
  access on it throws a \<^verbatim>\<open>TypeError\<close>. A thrown exception is \<open>None\<close>.
\<close>

definition arr_get :: "'a list \<Rightarrow> nat \<Rightarrow> 'a option" where
  "arr_get xs i = (if i < length xs then Some (xs ! i) else None)"

text \<open>\<^verbatim>\<open>xs.slice(s, e)\<close> for non-negative \<open>s\<close> and \<open>e\<close>; both ends are cut at the length.\<close>

definition slice :: "'a list \<Rightarrow> nat \<Rightarrow> nat \<Rightarrow> 'a list" where
  "slice xs s e = take (e - s) (drop s xs)"

text \<open>
  \<^verbatim>\<open>xs.map((x, index) => ...)\<close> and \<^verbatim>\<open>xs.reduce((total, x, i) => ..., init)\<close> with a callback
  that may throw: the first exception ends the traversal.
\<close>

fun map_idx :: "('a \<Rightarrow> nat \<Rightarrow> 'b option) \<Rightarrow> 'a list \<Rightarrow> nat \<Rightarrow> 'b list option" where
  "map_idx f [] i = Some []"
| "map_idx f (x # xs) i =
     (case f x i of
        None \<Rightarrow> None
      | Some y \<Rightarrow> (case map_idx f xs (Suc i) of None \<Rightarrow> None | Some ys \<Rightarrow> Some (y # ys)))"

fun reduce_idx :: "('b \<Rightarrow> 'a \<Rightarrow> nat \<Rightarrow> 'b option) \<Rightarrow> 'a list \<Rightarrow> nat \<Rightarrow> 'b \<Rightarrow> 'b option" where
  "reduce_idx f [] i acc = Some acc"
| "reduce_idx f (x # xs) i acc =
     (case f acc x i of None \<Rightarrow> None | Some acc' \<Rightarrow> reduce_idx f xs (Suc i) acc')"

subsection \<open>The drift series builder\<close>

text \<open>
  The callback of the \<^verbatim>\<open>reduce\<close> that accumulates the path length (source lines 679-694);
  \<open>acc\<close> is the source's \<^verbatim>\<open>total\<close>. The sum is over exact reals: in the program a leg whose
  rounded \<open>a\<close> exceeds 1 is \<^verbatim>\<open>NaN\<close> and makes every later total \<^verbatim>\<open>NaN\<close>.
\<close>

definition cumulativeStep ::
  "('a TrajectoryPoint_scheme) list \<Rightarrow> real \<Rightarrow> 'a TrajectoryPoint_scheme \<Rightarrow> nat \<Rightarrow> real option"
where
  "cumulativeStep trajectoryPoints acc p i =
     (if i = 0 then Some 0
      else do {
        prev \<leftarrow> arr_get trajectoryPoints (i - 1);
        let lat1 = (latitude prev * pi) / 180;
        let lat2 = (latitude p * pi) / 180;
        let dLat = ((latitude p - latitude prev) * pi) / 180;
        let dLon = ((longitude p - longitude prev) * pi) / 180;
        let a = sin (dLat / 2) * sin (dLat / 2) +
                cos lat1 * cos lat2 * sin (dLon / 2) * sin (dLon / 2);
        let c = 2 * Math_atan2 (sqrt a) (sqrt (1 - a));
        Some (acc + 6371 * c)
      })"

text \<open>
  The callback of the outer \<^verbatim>\<open>map\<close> (source lines 645-720). \<open>getTime s\<close> stands for
  \<^verbatim>\<open>new Date(s).getTime()\<close>: the milliseconds since the epoch, or \<open>None\<close> for an invalid
  date. Speed, distance and displacement are the exact real values of the formulas; the
  program's doubles differ from them by rounding, and are \<^verbatim>\<open>NaN\<close> where the rounded \<open>a\<close> or
  \<open>aDisp\<close> exceeds 1.
\<close>

definition driftCallback ::
  "(string \<Rightarrow> real option) \<Rightarrow> ('a TrajectoryPoint_scheme) list \<Rightarrow>
   'a TrajectoryPoint_scheme \<Rightarrow> nat \<Rightarrow> DriftData option"
where
  "driftCallback getTime trajectoryPoints point index =
     do {
       prevPoint \<leftarrow> arr_get trajectoryPoints index;
       let lat1 = (latitude prevPoint * pi) / 180;
       let lat2 = (latitude point * pi) / 180;
       let deltaLat = ((latitude point - latitude prevPoint) * pi) / 180;
       let deltaLon = ((longitude point - longitude prevPoint) * pi) / 180;
       let a = sin (deltaLat / 2) * sin (deltaLat / 2) +
               cos lat1 * cos lat2 * sin (deltaLon / 2) * sin (deltaLon / 2);
       let c = 2 * Math_atan2 (sqrt a) (sqrt (1 - a));
       let distance = 6371 * c;
       let timeDiff =
             (case (getTime (timestamp point), getTime (timestamp prevPoint)) of
                (Some t2, Some t1) \<Rightarrow> Some ((t2 - t1) / (1000 * 60 * 60))
              | _ \<Rightarrow> None);
       let speed = (case timeDiff of
                      Some d \<Rightarrow> if 0 < d then distance / d else 0
                    | None \<Rightarrow> 0);
       let y = sin deltaLon * cos lat2;
       let x = cos lat1 * sin lat2 - sin lat1 * cos lat2 * cos deltaLon;
       let direction = js_rem ((Math_atan2 y x * 180) / pi + 360) 360;
       cumulativeDistance \<leftarrow>
         reduce_idx (cumulativeStep trajectoryPoints) (slice trajectoryPoints 0 (index + 2)) 0 0;
       startPoint \<leftarrow> arr_get trajectoryPoints 0;
       let startLat = (latitude startPoint * pi) / 180;
       let pointLat = (latitude point * pi) / 180;
       let dLat = ((latitude point - latitude startPoint) * pi) / 180;
       let dLon = ((longitude point - longitude startPoint) * pi) / 180;
       let aDisp = sin (dLat / 2) * sin (dLat / 2) +
                   cos startLat * cos pointLat * sin (dLon / 2) * sin (dLon / 2);
       let cDisp = 2 * Math_atan2 (sqrt aDisp) (sqrt (1 - aDisp));
       let displacement = 6371 * cDisp;
       Some \<lparr> latitude = latitude point,
              longitude = longitude point,
              timestamp = timestamp point,
              speed = max 0 (min speed 10),
              direction = direction,
              distance = cumulativeDistance,
              displacement = displacement \<rparr>
     }"

text \<open>\<^verbatim>\<open>trajectoryPoints.slice(1).map((point, index) => ...)\<close>.\<close>

definition generateMockDriftData ::
  "(string \<Rightarrow> real option) \<Rightarrow> ('a TrajectoryPoint_scheme) list \<Rightarrow> DriftData list option"
where
  "generateMockDriftData getTime trajectoryPoints =
     map_idx (driftCallback getTime trajectoryPoints)
       (slice trajectoryPoints 1 (length trajectoryPoints)) 0"

subsection \<open>The two geometric quantities as functions of a pair of points\<close>

text \<open>
  The source has no separate distance function: the same Haversine block is written out
  three times (lines 647-660 for the step, 682-693 inside the \<^verbatim>\<open>reduce\<close>, 698-709 for the
  displacement). \<open>haversine p q\<close> is that block for the pair \<open>(p, q)\<close>, and \<open>bearing p q\<close> is
  the block of lines 670-674; the lemmas \<open>driftCallback_eq\<close> and \<open>cumulativeStep_eq\<close> below
  show that the callbacks compute exactly these. Like the callbacks, \<open>haversine\<close> is the
  exact real value: for two equal points, two points at one pole or two points on the
  meridians -180 and 180 it is exactly 0 where the program returns 0 or a value below
  \<open>10\<^sup>-\<^sup>1\<^sup>1\<close> km, and for antipodal points it is \<open>6371 * pi\<close> where the program may return \<^verbatim>\<open>NaN\<close>.
\<close>

definition haversine :: "'a TrajectoryPoint_scheme \<Rightarrow> 'b TrajectoryPoint_scheme \<Rightarrow> real" where
  "haversine p q =
     (let lat1 = (latitude p * pi) / 180;
          lat2 = (latitude q * pi) / 180;
          dLat = ((latitude q - latitude p) * pi) / 180;
          dLon = ((longitude q - longitude p) * pi) / 180;
          a = sin (dLat / 2) * sin (dLat / 2) +
              cos lat1 * cos lat2 * sin (dLon / 2) * sin (dLon / 2);
          c = 2 * Math_atan2 (sqrt a) (sqrt (1 - a))
      in 6371 * c)"

definition bearing :: "'a TrajectoryPoint_scheme \<Rightarrow> 'b TrajectoryPoint_scheme \<Rightarrow> real" where
  "bearing p q =
     (let lat1 = (latitude p * pi) / 180;
          lat2 = (latitude q * pi) / 180;
          deltaLon = ((longitude q - longitude p) * pi) / 180;
          y = sin deltaLon * cos lat2;
          x = cos lat1 * sin lat2 - sin lat1 * cos lat2 * cos deltaLon
      in js_rem ((Math_atan2 y x * 180) / pi + 360) 360)"

text \<open>
  The elapsed hours between two points, when both timestamps parse, and the speed before
  the clamp (lines 663-667).
\<close>

definition hoursBetween ::
  "(string \<Rightarrow> real option) \<Rightarrow> 'a TrajectoryPoint_scheme \<Rightarrow> 'b TrajectoryPoint_scheme \<Rightarrow> real option"
where
  "hoursBetween getTime p q =
     (case (getTime (timestamp q), getTime (timestamp p)) of
        (Some t2, Some t1) \<Rightarrow> Some ((t2 - t1) / (1000 * 60 * 60))
      | _ \<Rightarrow> None)"

definition rawSpeed ::
  "(string \<Rightarrow> real option) \<Rightarrow> 'a TrajectoryPoint_scheme \<Rightarrow> 'b TrajectoryPoint_scheme \<Rightarrow> real"
where
  "rawSpeed getTime p q =
     (case hoursBetween getTime p q of
        Some d \<Rightarrow> if 0 < d then haversine p q / d else 0
      | None \<Rightarrow> 0)"

text \<open>
  Auxiliary quantities of the proofs: the cosine of the central angle between two points
  given in degrees (the scalar product of their unit vectors), and the Haversine term \<open>a\<close>.
\<close>

definition cosAngle :: "real \<Rightarrow> real \<Rightarrow> real \<Rightarrow> real \<Rightarrow> real" where
  "cosAngle la1 lo1 la2 lo2 =
     sin (la1 * pi / 180) * sin (la2 * pi / 180) +
     cos (la1 * pi / 180) * cos (la2 * pi / 180) * cos ((lo2 - lo1) * pi / 180)"

definition havTerm :: "real \<Rightarrow> real \<Rightarrow> real \<Rightarrow> real \<Rightarrow> real" where
  "havTerm la1 lo1 la2 lo2 =
     sin (((la2 - la1) * pi / 180) / 2) * sin (((la2 - la1) * pi / 180) / 2) +
     cos (la1 * pi / 180) * cos (la2 * pi / 180) *
       sin (((lo2 - lo1) * pi / 180) / 2) * sin (((lo2 - lo1) * pi / 180) / 2)"

text \<open>
  The length of the path through the points 0 to \<open>k\<close>, and the record that the callback
  builds at callback index \<open>index\<close> (for the point \<open>index + 1\<close>), both written with the
  functions above; \<open>generateMockDriftData_eq\<close> proves that the builder returns these.
\<close>

definition pathLength :: "('a TrajectoryPoint_scheme) list \<Rightarrow> nat \<Rightarrow> real" where
  "pathLength ps k = (\<Sum>j = 1..<Suc k. haversine (ps ! (j - 1)) (ps ! j))"

definition driftRecord ::
  "(string \<Rightarrow> real option) \<Rightarrow> ('a TrajectoryPoint_scheme) list \<Rightarrow> nat \<Rightarrow> DriftData"
where
  "driftRecord getTime ps index =
     \<lparr> latitude = latitude (ps ! Suc index),
       longitude = longitude (ps ! Suc index),
       timestamp = timestamp (ps ! Suc index),
       speed = max 0 (min (rawSpeed getTime (ps ! index) (ps ! Suc index)) 10),
       direction = bearing (ps ! index) (ps ! Suc index),
       distance = pathLength ps (Suc index),
       displacement = haversine (ps ! 0) (ps ! Suc index) \<rparr>"

subsection \<open>The profile grouper, on an explicit store of arrays\<close>

text \<open>
  \<^verbatim>\<open>Array.prototype.sort\<close> sorts its receiver in place, so whether the grouping loop
  changes \<^verbatim>\<open>trajectory.points\<close> depends on which arrays are copies. Arrays therefore live
  in a store: an array reference is an index into the list of all arrays allocated so far,
  a new array gets the next free index. The point objects themselves are kept by value:
  neither piece of code assigns to a field of a point.
\<close>

type_synonym addr = nat
type_synonym 'p heap = "'p list list"

definition h_alloc :: "'p heap \<Rightarrow> 'p list \<Rightarrow> addr \<times> 'p heap" where
  "h_alloc h xs = (length h, h @ [xs])"

text \<open>\<^verbatim>\<open>a.filter(P)\<close> and \<^verbatim>\<open>a.slice(s, e)\<close> return a new array and leave \<open>a\<close> alone.\<close>

definition array_filter :: "('p \<Rightarrow> bool) \<Rightarrow> addr \<Rightarrow> 'p heap \<Rightarrow> addr \<times> 'p heap" where
  "array_filter P a h = h_alloc h (filter P (h ! a))"

definition array_slice :: "addr \<Rightarrow> nat \<Rightarrow> nat \<Rightarrow> 'p heap \<Rightarrow> addr \<times> 'p heap" where
  "array_slice a s e h = h_alloc h (slice (h ! a) s e)"

text \<open>
  \<^verbatim>\<open>a.sort((x, y) => key(x) - key(y))\<close> overwrites \<open>a\<close> with its elements in ascending order
  of the key and returns the same reference. The sort of the language is stable, and the
  stable ascending arrangement of a list is unique: it is \<^const>\<open>sort_key\<close>.
\<close>

definition array_sort :: "('p \<Rightarrow> real) \<Rightarrow> addr \<Rightarrow> 'p heap \<Rightarrow> addr \<times> 'p heap" where
  "array_sort key a h = (a, h[a := sort_key key (h ! a)])"

text \<open>The filter predicate of line 29 and the sort key \<^verbatim>\<open>a.depth || 0\<close> of line 91.\<close>

definition validPoint :: "'a FloatTrajectoryPoint_scheme \<Rightarrow> bool" where
  "validPoint point = (temperature point \<noteq> None \<and> depth point \<noteq> None)"

definition depthKey :: "'a FloatTrajectoryPoint_scheme \<Rightarrow> real" where
  "depthKey a = (case depth a of Some d \<Rightarrow> d | None \<Rightarrow> 0)"

definition profileSize :: nat where
  "profileSize = 5"

text \<open>
  The \<^verbatim>\<open>for\<close> loop of lines 88-93; \<open>profiles\<close> holds the references pushed so far. The loop
  reads \<^verbatim>\<open>validPoints.length\<close> through the reference, which must denote an allocated array.
\<close>

function profilesLoop ::
  "addr \<Rightarrow> nat \<Rightarrow> addr list \<Rightarrow> ('a FloatTrajectoryPoint_scheme) heap \<Rightarrow>
   addr list \<times> ('a FloatTrajectoryPoint_scheme) heap"
where
  "profilesLoop validPoints i profiles h =
     (if validPoints < length h \<and> i < length (h ! validPoints) then
        (case array_slice validPoints i (i + profileSize) h of
           (profile, h1) \<Rightarrow>
             if 1 < length (h1 ! profile) then
               (case array_sort depthKey profile h1 of
                  (sortedProfile, h2) \<Rightarrow>
                    profilesLoop validPoints (i + profileSize) (profiles @ [sortedProfile]) h2)
             else profilesLoop validPoints (i + profileSize) profiles h1)
      else (profiles, h))"
  by pat_completeness auto
termination
  by (relation "measure (\<lambda>(validPoints, i, profiles, h). length (h ! validPoints) - i)")
    (auto simp: array_slice_def array_sort_def h_alloc_def nth_append profileSize_def)

text \<open>
  The part of the effect of \<^verbatim>\<open>ProfileOverlayChart\<close> that computes \<^verbatim>\<open>profiles\<close> (lines 17,
  28-32, 86-93), for a mounted chart. \<open>points\<close> is the reference \<^verbatim>\<open>trajectory.points\<close>. An
  early \<^verbatim>\<open>return\<close> draws nothing: \<open>None\<close>. The store after the run is returned in both cases.
\<close>

definition ProfileOverlayChart_profiles ::
  "addr \<Rightarrow> ('a FloatTrajectoryPoint_scheme) heap \<Rightarrow>
   addr list option \<times> ('a FloatTrajectoryPoint_scheme) heap"
where
  "ProfileOverlayChart_profiles points h =
     (if length (h ! points) = 0 then (None, h)
      else
        (case array_filter validPoint points h of
           (validPoints, h1) \<Rightarrow>
             if length (h1 ! validPoints) = 0 then (None, h1)
             else (case profilesLoop validPoints 0 [] h1 of
                     (profiles, h2) \<Rightarrow> (Some profiles, h2))))"

text \<open>The profiles that get drawn, as lists of points: none after an early return.\<close>

definition drawnProfiles ::
  "addr list option \<times> 'p heap \<Rightarrow> 'p list list" where
  "drawnProfiles r = (case fst r of None \<Rightarrow> [] | Some profiles \<Rightarrow> map (\<lambda>a. snd r ! a) profiles)"

text \<open>
  The grouper in the words of the specification: filter the points that have both
  readings, cut into consecutive windows of \<open>windowSize\<close> (the last one may be shorter), drop
  the windows with fewer than two points, sort each window ascending by depth.
\<close>

function windows :: "nat \<Rightarrow> 'a list \<Rightarrow> 'a list list" where
  "windows n xs = (if n = 0 \<or> xs = [] then [] else take n xs # windows n (drop n xs))"
  by pat_completeness auto
termination
  by (relation "measure (\<lambda>(n, xs). length xs)") auto

definition ProfileGrouper ::
  "nat \<Rightarrow> ('a FloatTrajectoryPoint_scheme) list \<Rightarrow> ('a FloatTrajectoryPoint_scheme) list list"
where
  "ProfileGrouper windowSize points =
     map (sort_key (\<lambda>p. the (depth p)))
       (filter (\<lambda>w. \<not> length w < 2)
          (windows windowSize
             (filter (\<lambda>p. \<not> (temperature p = None \<or> depth p = None)) points)))"

subsection \<open>The drift series builder on the store\<close>

text \<open>
  The array operations of \<^verbatim>\<open>generateMockDriftData\<close> are index reads, \<^verbatim>\<open>slice\<close>, \<^verbatim>\<open>map\<close> and
  \<^verbatim>\<open>reduce\<close>. On the store, the callback allocates the temporary array
  \<^verbatim>\<open>trajectoryPoints.slice(0, index + 2)\<close> and otherwise only reads; its value is that of
  \<open>driftCallback\<close> on the contents of the input array. The array that \<^verbatim>\<open>map\<close> returns holds
  new \<^verbatim>\<open>DriftData\<close> objects and is returned by value.
\<close>

definition driftCallbackH ::
  "(string \<Rightarrow> real option) \<Rightarrow> addr \<Rightarrow> 'a TrajectoryPoint_scheme \<Rightarrow> nat \<Rightarrow>
   ('a TrajectoryPoint_scheme) heap \<Rightarrow> (DriftData \<times> ('a TrajectoryPoint_scheme) heap) option"
where
  "driftCallbackH getTime trajectoryPoints point index h =
     (case array_slice trajectoryPoints 0 (index + 2) h of
        (temporary, h1) \<Rightarrow>
          (case driftCallback getTime (h ! trajectoryPoints) point index of
             None \<Rightarrow> None
           | Some r \<Rightarrow> Some (r, h1)))"

fun map_idxH ::
  "('a \<Rightarrow> nat \<Rightarrow> 'h \<Rightarrow> ('b \<times> 'h) option) \<Rightarrow> 'a list \<Rightarrow> nat \<Rightarrow> 'h \<Rightarrow> ('b list \<times> 'h) option"
where
  "map_idxH f [] i h = Some ([], h)"
| "map_idxH f (x # xs) i h =
     (case f x i h of
        None \<Rightarrow> None
      | Some (y, h1) \<Rightarrow>
          (case map_idxH f xs (Suc i) h1 of
             None \<Rightarrow> None
           | Some (ys, h2) \<Rightarrow> Some (y # ys, h2)))"

definition generateMockDriftDataH ::
  "(string \<Rightarrow> real option) \<Rightarrow> addr \<Rightarrow> ('a TrajectoryPoint_scheme) heap \<Rightarrow>
   (DriftData list \<times> ('a TrajectoryPoint_scheme) heap) option"
where
  "generateMockDriftDataH getTime trajectoryPoints h =
     (case array_slice trajectoryPoints 1 (length (h ! trajectoryPoints)) h of
        (rest, h1) \<Rightarrow> map_idxH (driftCallbackH getTime trajectoryPoints) (h1 ! rest) 0 h1)"

subsection \<open>Example data\<close>

text \<open>
  A clock for the examples: it reads the three timestamps \<open>0h\<close>, \<open>1h\<close> and \<open>2h\<close> as that many
  hours after the epoch, in milliseconds, and nothing else.
\<close>

definition exampleClock :: "string \<Rightarrow> real option" where
  "exampleClock s =
     (if s = ''0h'' then Some 0
      else if s = ''1h'' then Some 3600000
      else if s = ''2h'' then Some 7200000
      else None)"

definition pointAt :: "real \<Rightarrow> real \<Rightarrow> string \<Rightarrow> TrajectoryPoint" where
  "pointAt la lo t = \<lparr> latitude = la, longitude = lo, timestamp = t \<rparr>"

definition profilePoint :: "real \<Rightarrow> real \<Rightarrow> FloatTrajectoryPoint" where
  "profilePoint n d =
     \<lparr> latitude = 0, longitude = 0, timestamp = ''0h'',
       point_id = n, depth = Some d, temperature = Some 4, salinity = None, status = active \<rparr>"

definition twelvePoints :: "FloatTrajectoryPoint list" where
  "twelvePoints =
     [profilePoint 1 50, profilePoint 2 40, profilePoint 3 30, profilePoint 4 20,
      profilePoint 5 10, profilePoint 6 5, profilePoint 7 4, profilePoint 8 3,
      profilePoint 9 2, profilePoint 10 1, profilePoint 11 9, profilePoint 12 8]"

section \<open>Geometry of the Haversine formula\<close>

subsection \<open>The Haversine term and the central angle\<close>


lemma cs3:
  fixes a1 a2 a3 b1 b2 b3 :: real
  shows "(a1*b1 + a2*b2 + a3*b3)\<^sup>2 \<le> (a1\<^sup>2 + a2\<^sup>2 + a3\<^sup>2) * (b1\<^sup>2 + b2\<^sup>2 + b3\<^sup>2)"
proof -
  have "(a1\<^sup>2 + a2\<^sup>2 + a3\<^sup>2) * (b1\<^sup>2 + b2\<^sup>2 + b3\<^sup>2) - (a1*b1 + a2*b2 + a3*b3)\<^sup>2
      = (a1*b2 - a2*b1)\<^sup>2 + (a1*b3 - a3*b1)\<^sup>2 + (a2*b3 - a3*b2)\<^sup>2"
    by (simp add: power2_eq_square algebra_simps)
  moreover have "0 \<le> (a1*b2 - a2*b1)\<^sup>2 + (a1*b3 - a3*b1)\<^sup>2 + (a2*b3 - a3*b2)\<^sup>2"
    by simp
  ultimately show ?thesis by linarith
qed

lemma havTerm_cosAngle: "havTerm la1 lo1 la2 lo2 = (1 - cosAngle la1 lo1 la2 lo2) / 2"
proof -
  define x where "x = la1 * pi / 180"
  define y where "y = la2 * pi / 180"
  define e where "e = (lo2 - lo1) * pi / 180"
  have s: "sin (t / 2) * sin (t / 2) = (1 - cos t) / 2" for t :: real
    using cos_double_sin [of "t / 2"] by (simp add: power2_eq_square)
  have d: "(la2 - la1) * pi / 180 = y - x"
    by (simp add: x_def y_def algebra_simps diff_divide_distrib)
  have "havTerm la1 lo1 la2 lo2 =
      sin ((y - x) / 2) * sin ((y - x) / 2) + cos x * cos y * (sin (e / 2) * sin (e / 2))"
    by (simp add: havTerm_def d x_def y_def e_def mult.assoc)
  also have "\<dots> = (1 - cos (y - x)) / 2 + cos x * cos y * ((1 - cos e) / 2)"
    by (simp only: s)
  also have "\<dots> = (1 - (sin x * sin y + cos x * cos y * cos e)) / 2"
    by (simp add: cos_diff field_simps)
  finally show ?thesis
    by (simp add: cosAngle_def x_def y_def e_def)
qed

lemma cosAngle_dot:
  "cosAngle la1 lo1 la2 lo2 =
     (cos (la1 * pi / 180) * cos (lo1 * pi / 180)) * (cos (la2 * pi / 180) * cos (lo2 * pi / 180)) +
     (cos (la1 * pi / 180) * sin (lo1 * pi / 180)) * (cos (la2 * pi / 180) * sin (lo2 * pi / 180)) +
     sin (la1 * pi / 180) * sin (la2 * pi / 180)"
proof -
  have d: "(lo2 - lo1) * pi / 180 = lo2 * pi / 180 - lo1 * pi / 180"
    by (simp add: algebra_simps diff_divide_distrib)
  show ?thesis
    unfolding cosAngle_def d cos_diff by (simp add: algebra_simps)
qed

lemma unit_vec: "(cos a * cos b)\<^sup>2 + (cos a * sin b)\<^sup>2 + (sin a)\<^sup>2 = (1::real)"
proof -
  have "(cos a * cos b)\<^sup>2 + (cos a * sin b)\<^sup>2 = (cos a)\<^sup>2 * ((cos b)\<^sup>2 + (sin b)\<^sup>2)"
    by (simp only: power_mult_distrib distrib_left)
  then show ?thesis by simp
qed

lemma cosAngle_bounds: "- 1 \<le> cosAngle la1 lo1 la2 lo2" "cosAngle la1 lo1 la2 lo2 \<le> 1"
proof -
  let ?c = "cosAngle la1 lo1 la2 lo2"
  have "?c\<^sup>2 \<le> 1 * 1"
    unfolding cosAngle_dot
    using cs3 [of "cos (la1 * pi / 180) * cos (lo1 * pi / 180)" "cos (la2 * pi / 180) * cos (lo2 * pi / 180)"
        "cos (la1 * pi / 180) * sin (lo1 * pi / 180)" "cos (la2 * pi / 180) * sin (lo2 * pi / 180)"
        "sin (la1 * pi / 180)" "sin (la2 * pi / 180)"]
    by (simp only: unit_vec)
  then have "\<bar>?c\<bar> \<le> 1"
    by (simp add: abs_square_le_1)
  then show "- 1 \<le> ?c" "?c \<le> 1" by simp_all
qed

lemma havTerm_bounds: "0 \<le> havTerm la1 lo1 la2 lo2" "havTerm la1 lo1 la2 lo2 \<le> 1"
  using cosAngle_bounds [of la1 lo1 la2 lo2] by (simp_all add: havTerm_cosAngle)

lemma atan2_arccos:
  assumes "0 \<le> a" "a \<le> 1"
  shows "2 * Math_atan2 (sqrt a) (sqrt (1 - a)) = arccos (1 - 2 * a)"
proof (cases "a = 1")
  case True
  then show ?thesis by (simp add: Math_atan2_def)
next
  case False
  with assms have a1: "a < 1" by simp
  define t where "t = arctan (sqrt a / sqrt (1 - a))"
  have pos: "0 < sqrt (1 - a)" using a1 by simp
  have t0: "0 \<le> t" unfolding t_def using assms pos by simp
  have t1: "t < pi / 2" unfolding t_def by (rule arctan_ubound)
  have "1 + (sqrt a / sqrt (1 - a))\<^sup>2 = 1 / (1 - a)"
    using assms a1 by (simp add: power_divide field_simps)
  then have "(cos t)\<^sup>2 = 1 - a"
    unfolding t_def cos_arctan using a1 by (simp add: power_divide real_sqrt_divide)
  then have "cos (2 * t) = 1 - 2 * a"
    by (simp add: cos_double_cos)
  moreover have "arccos (cos (2 * t)) = 2 * t"
    using t0 t1 by (intro arccos_cos) simp_all
  ultimately have "arccos (1 - 2 * a) = 2 * t" by simp
  moreover have "Math_atan2 (sqrt a) (sqrt (1 - a)) = t"
    using pos by (simp add: Math_atan2_def t_def)
  ultimately show ?thesis by simp
qed

lemma haversine_arccos:
  "haversine p q = 6371 * arccos (cosAngle (latitude p) (longitude p) (latitude q) (longitude q))"
proof -
  let ?a = "havTerm (latitude p) (longitude p) (latitude q) (longitude q)"
  have "haversine p q = 6371 * (2 * Math_atan2 (sqrt ?a) (sqrt (1 - ?a)))"
    by (simp add: haversine_def havTerm_def Let_def)
  also have "\<dots> = 6371 * arccos (1 - 2 * ?a)"
    using atan2_arccos [OF havTerm_bounds] by simp
  also have "1 - 2 * ?a = cosAngle (latitude p) (longitude p) (latitude q) (longitude q)"
    unfolding havTerm_cosAngle by (simp add: field_simps)
  finally show ?thesis .
qed

subsection \<open>Properties of the distance\<close>




section \<open>What the drift series builder returns\<close>

lemma cumulativeStep_eq:
  assumes "0 < i" "i - 1 < length ps"
  shows "cumulativeStep ps acc p i = Some (acc + haversine (ps ! (i - 1)) p)"
  using assms by (simp add: cumulativeStep_def arr_get_def haversine_def Let_def)

lemma reduce_idx_cumulative:
  assumes "0 < i" "n \<le> length ps"
  shows "reduce_idx (cumulativeStep ps) (drop i (take n ps)) i acc =
         Some (acc + (\<Sum>j = i..<n. haversine (ps ! (j - 1)) (ps ! j)))"
  using assms
proof (induction "n - i" arbitrary: i acc)
  case 0
  then show ?case by simp
next
  case (Suc d)
  then have lt: "i < n" by simp
  then have "i < length (take n ps)" using Suc.prems by simp
  then have split: "drop i (take n ps) = ps ! i # drop (Suc i) (take n ps)"
    using lt by (simp add: Cons_nth_drop_Suc [symmetric])
  have step: "cumulativeStep ps acc (ps ! i) i = Some (acc + haversine (ps ! (i - 1)) (ps ! i))"
    using Suc.prems lt by (intro cumulativeStep_eq) simp_all
  have ih: "reduce_idx (cumulativeStep ps) (drop (Suc i) (take n ps)) (Suc i)
              (acc + haversine (ps ! (i - 1)) (ps ! i)) =
            Some (acc + haversine (ps ! (i - 1)) (ps ! i) +
                  (\<Sum>j = Suc i..<n. haversine (ps ! (j - 1)) (ps ! j)))"
    using Suc.hyps(2) Suc.prems by (intro Suc.hyps(1)) simp_all
  have "(\<Sum>j = i..<n. haversine (ps ! (j - 1)) (ps ! j)) =
        haversine (ps ! (i - 1)) (ps ! i) + (\<Sum>j = Suc i..<n. haversine (ps ! (j - 1)) (ps ! j))"
    using lt by (simp add: sum.atLeast_Suc_lessThan)
  then show ?case
    by (simp only: split reduce_idx.simps step option.case ih add.assoc)
qed

lemma reduce_idx_pathLength:
  assumes "Suc k < length ps"
  shows "reduce_idx (cumulativeStep ps) (slice ps 0 (Suc k + 1)) 0 0 = Some (pathLength ps (Suc k))"
proof -
  have "take (Suc (Suc k)) ps = ps ! 0 # drop 1 (take (Suc (Suc k)) ps)"
    using assms by (cases ps) simp_all
  then have "reduce_idx (cumulativeStep ps) (slice ps 0 (Suc k + 1)) 0 0 =
        reduce_idx (cumulativeStep ps) (ps ! 0 # drop 1 (take (Suc (Suc k)) ps)) 0 0"
    by (simp add: slice_def)
  also have "\<dots> = reduce_idx (cumulativeStep ps) (drop 1 (take (Suc (Suc k)) ps)) 1 0"
    by (simp add: cumulativeStep_def)
  also have "\<dots> = Some (0 + (\<Sum>j = 1..<Suc (Suc k). haversine (ps ! (j - 1)) (ps ! j)))"
    using assms by (intro reduce_idx_cumulative) simp_all
  finally show ?thesis by (simp add: pathLength_def)
qed

lemma driftCallback_eq:
  assumes "Suc index < length ps"
  shows "driftCallback getTime ps (ps ! Suc index) index = Some (driftRecord getTime ps index)"
proof -
  have cum: "reduce_idx (cumulativeStep ps) (slice ps 0 (index + 2)) 0 0 = Some (pathLength ps (Suc index))"
    using reduce_idx_pathLength [OF assms] by simp
  have g1: "arr_get ps index = Some (ps ! index)"
    using assms by (simp add: arr_get_def)
  have g0: "arr_get ps 0 = Some (ps ! 0)"
    using assms by (auto simp: arr_get_def)
  show ?thesis
    unfolding driftCallback_def driftRecord_def rawSpeed_def hoursBetween_def haversine_def
      bearing_def Let_def g1 g0 cum
    by (simp only: Option.bind.simps)
qed

lemma map_idx_eq:
  assumes "\<And>j. j < length xs \<Longrightarrow> f (xs ! j) (i + j) = Some (g (i + j))"
  shows "map_idx f xs i = Some (map g [i..<i + length xs])"
  using assms
proof (induction xs arbitrary: i)
  case Nil
  then show ?case by simp
next
  case (Cons x xs)
  have hd: "f x i = Some (g i)" using Cons.prems [of 0] by simp
  have "map_idx f xs (Suc i) = Some (map g [Suc i..<Suc i + length xs])"
  proof (rule Cons.IH)
    fix j assume "j < length xs"
    then show "f (xs ! j) (Suc i + j) = Some (g (Suc i + j))"
      using Cons.prems [of "Suc j"] by simp
  qed
  then show ?case
    using hd by (simp add: upt_conv_Cons del: upt_Suc)
qed

lemma generateMockDriftData_eq:
  "generateMockDriftData getTime ps = Some (map (driftRecord getTime ps) [0..<length ps - 1])"
proof -
  have "map_idx (driftCallback getTime ps) (drop 1 ps) 0 =
        Some (map (driftRecord getTime ps) [0..<0 + length (drop 1 ps)])"
  proof (rule map_idx_eq)
    fix j assume "j < length (drop 1 ps)"
    then have "Suc j < length ps" by simp
    then show "driftCallback getTime ps (drop 1 ps ! j) (0 + j) = Some (driftRecord getTime ps (0 + j))"
      using driftCallback_eq [of j ps getTime] by simp
  qed
  then show ?thesis
    by (simp add: generateMockDriftData_def slice_def)
qed

section \<open>The claims about the drift series builder\<close>

text \<open>
  Claim C2. On every trajectory the builder returns without an exception; the result has
  \<open>max 0 (n - 1)\<close> records for \<open>n\<close> points; the records follow the input order, record \<open>i\<close>
  carrying timestamp, latitude and longitude of point \<open>i\<close>; and the empty and the
  one-point trajectory give the empty sequence.
\<close>

theorem drift_count_order:
  "(\<exists>rs. generateMockDriftData getTime ps = Some rs \<and>
      int (length rs) = max 0 (int (length ps) - 1) \<and>
      map timestamp rs = map timestamp (drop 1 ps) \<and>
      map latitude rs = map latitude (drop 1 ps) \<and>
      map longitude rs = map longitude (drop 1 ps)) \<and>
   generateMockDriftData getTime [] = Some [] \<and>
   generateMockDriftData getTime [p] = Some []"
proof -
  have "map timestamp (map (driftRecord getTime ps) [0..<length ps - 1]) = map timestamp (drop 1 ps)"
    by (rule nth_equalityI) (simp_all add: driftRecord_def)
  moreover
  have "map latitude (map (driftRecord getTime ps) [0..<length ps - 1]) = map latitude (drop 1 ps)"
    by (rule nth_equalityI) (simp_all add: driftRecord_def)
  moreover
  have "map longitude (map (driftRecord getTime ps) [0..<length ps - 1]) = map longitude (drop 1 ps)"
    by (rule nth_equalityI) (simp_all add: driftRecord_def)
  ultimately show ?thesis
    by (simp add: generateMockDriftData_eq)
qed

section \<open>The bearing\<close>

lemma Math_atan2_bounds: "- pi < Math_atan2 y x \<and> Math_atan2 y x \<le> pi"
proof -
  have b: "- (pi / 2) < arctan (y / x)" "arctan (y / x) < pi / 2"
    by (rule arctan_lbound, rule arctan_ubound)
  consider "0 < x" | "x < 0" "0 \<le> y" | "x < 0" "y < 0" | "x = 0"
    by linarith
  then show ?thesis
  proof cases
    case 1
    then show ?thesis using b by (simp add: Math_atan2_def)
  next
    case 2
    then have "y / x \<le> 0" by (simp add: divide_nonneg_neg)
    then have "arctan (y / x) \<le> 0" by simp
    with b pi_gt_zero have "- pi < arctan (y / x) + pi" "arctan (y / x) + pi \<le> pi"
      by linarith+
    with 2 show ?thesis by (simp add: Math_atan2_def)
  next
    case 3
    then have "0 < y / x" by (simp add: divide_neg_neg)
    then have "0 < arctan (y / x)" by simp
    with b pi_gt_zero have "- pi < arctan (y / x) - pi" "arctan (y / x) - pi \<le> pi"
      by linarith+
    with 3 show ?thesis by (simp add: Math_atan2_def)
  next
    case 4
    have "- pi < pi / 2" "pi / 2 \<le> pi" "- pi < - (pi / 2)" "- (pi / 2) \<le> pi"
      using pi_gt_zero by linarith+
    with 4 show ?thesis by (simp add: Math_atan2_def)
  qed
qed

lemma js_rem_range:
  assumes "0 \<le> x" "0 < y"
  shows "0 \<le> js_rem x y" "js_rem x y < y"
proof -
  have q: "0 \<le> x / y" using assms by simp
  then have r: "js_rem x y = x - y * of_int \<lfloor>x / y\<rfloor>"
    by (simp add: js_rem_def)
  have "of_int \<lfloor>x / y\<rfloor> \<le> x / y" by (rule of_int_floor_le)
  then have "of_int \<lfloor>x / y\<rfloor> * y \<le> x"
    using assms(2) by (simp only: pos_le_divide_eq)
  then have "y * of_int \<lfloor>x / y\<rfloor> \<le> x"
    by (simp only: mult.commute)
  then show "0 \<le> js_rem x y" by (simp add: r)
  have "x / y < of_int \<lfloor>x / y\<rfloor> + 1" by linarith
  then have "x < (of_int \<lfloor>x / y\<rfloor> + 1) * y"
    using assms(2) by (simp only: pos_divide_less_eq)
  then have "x < y * (of_int \<lfloor>x / y\<rfloor> + 1)"
    by (simp only: mult.commute)
  then show "js_rem x y < y" by (simp add: r algebra_simps)
qed

lemma bearing_range: "0 \<le> bearing p q" "bearing p q < 360"
proof -
  define t where "t = Math_atan2
      (sin (((longitude q - longitude p) * pi) / 180) * cos ((latitude q * pi) / 180))
      (cos ((latitude p * pi) / 180) * sin ((latitude q * pi) / 180) -
       sin ((latitude p * pi) / 180) * cos ((latitude q * pi) / 180) *
         cos (((longitude q - longitude p) * pi) / 180))"
  have b: "bearing p q = js_rem ((t * 180) / pi + 360) 360"
    by (simp add: bearing_def t_def Let_def)
  have "- pi < t" using Math_atan2_bounds [of _ _] by (simp add: t_def)
  then have "- 1 < t / pi" by (simp add: pos_less_divide_eq)
  then have "0 \<le> 180 * (t / pi + 2)" by simp
  moreover have "(t * 180) / pi + 360 = 180 * (t / pi + 2)" by (simp add: algebra_simps)
  ultimately have "0 \<le> (t * 180) / pi + 360" by (simp only:)
  then show "0 \<le> bearing p q" "bearing p q < 360"
    unfolding b by (simp_all add: js_rem_range)
qed

text \<open>
  Claim C7. The bearing of every pair of points lies in \<open>[0, 360)\<close>, and so does the
  \<open>direction\<close> of every drift record that the builder returns.
\<close>

theorem drift_direction_range:
  "(0 \<le> bearing p q \<and> bearing p q < 360) \<and>
   (\<exists>rs. generateMockDriftData getTime ps = Some rs \<and>
      (\<forall>r \<in> set rs. 0 \<le> direction r \<and> direction r < 360))"
proof -
  have "0 \<le> direction (driftRecord getTime ps k) \<and> direction (driftRecord getTime ps k) < 360" for k
    using bearing_range [of "ps ! k" "ps ! Suc k"] by (simp add: driftRecord_def)
  then show ?thesis
    using bearing_range [of p q] by (auto simp: generateMockDriftData_eq)
qed

theorem drift_direction_range_witness:
  "\<exists>rs. generateMockDriftData exampleClock [pointAt 0 0 ''0h'', pointAt 0 1 ''1h''] = Some rs \<and>
      length rs = 1 \<and> 0 \<le> direction (rs ! 0) \<and> direction (rs ! 0) < 360"
proof -
  obtain rs where rs: "generateMockDriftData exampleClock [pointAt 0 0 ''0h'', pointAt 0 1 ''1h''] = Some rs"
    and range: "\<forall>r \<in> set rs. 0 \<le> direction r \<and> direction r < 360"
    using drift_direction_range [of "pointAt 0 0 ''0h''" "pointAt 0 1 ''1h''" exampleClock
        "[pointAt 0 0 ''0h'', pointAt 0 1 ''1h'']"] by blast
  have len: "length rs = 1"
    using rs by (auto simp: generateMockDriftData_eq)
  then have "rs ! 0 \<in> set rs" by simp
  with range len rs show ?thesis by blast
qed

section \<open>The worked example: one degree east along the equator\<close>

subsection \<open>Bounds on pi from the arctangent series\<close>

lemma arctan_partial_sums:
  fixes x :: real
  assumes "0 \<le> x" "x \<le> 1"
  shows "(\<Sum>k<2 * n. (- 1) ^ k * (1 / real (k * 2 + 1) * x ^ (k * 2 + 1))) \<le> arctan x"
    and "arctan x \<le> (\<Sum>k<2 * n + 1. (- 1) ^ k * (1 / real (k * 2 + 1) * x ^ (k * 2 + 1)))"
proof -
  define a where "a k = 1 / real (k * 2 + 1) * x ^ (k * 2 + 1)" for k
  have lim: "a \<longlonglongrightarrow> 0"
    unfolding a_def using assms by (intro zeroseq_arctan_series) simp
  have pos: "0 \<le> a k" for k
    unfolding a_def using assms(1) by simp
  have dec: "a (Suc k) \<le> a k" for k
  proof -
    have "x ^ (Suc k * 2 + 1) \<le> x ^ (k * 2 + 1)"
      using assms by (intro power_decreasing) simp_all
    moreover have "1 / real (Suc k * 2 + 1) \<le> 1 / real (k * 2 + 1)"
      by (intro divide_left_mono) simp_all
    ultimately show ?thesis
      unfolding a_def using assms(1) by (intro mult_mono) simp_all
  qed
  have ser: "arctan x = (\<Sum>k. (- 1) ^ k * a k)"
    unfolding a_def using assms by (intro arctan_series) simp
  show "(\<Sum>k<2 * n. (- 1) ^ k * (1 / real (k * 2 + 1) * x ^ (k * 2 + 1))) \<le> arctan x"
    using summable_Leibniz'(2) [OF lim pos dec, of n] by (simp add: ser a_def)
  show "arctan x \<le> (\<Sum>k<2 * n + 1. (- 1) ^ k * (1 / real (k * 2 + 1) * x ^ (k * 2 + 1)))"
    using summable_Leibniz'(4) [OF lim pos dec, of n] by (simp add: ser a_def)
qed

lemma pi_bounds: "3.14159 < pi" "pi < 3.1415928"
proof -
  have m: "pi = 16 * arctan (1 / 5) - 4 * arctan (1 / 239)"
    using machin by simp
  have l5: "1 / 5 - 1 / 375 + 1 / 15625 - 1 / 546875 \<le> arctan (1 / 5)"
    using arctan_partial_sums(1) [of "1 / 5" 2] by (simp add: eval_nat_numeral)
  have u5: "arctan (1 / 5) \<le> 1 / 5 - 1 / 375 + 1 / 15625 - 1 / 546875 + 1 / 17578125"
    using arctan_partial_sums(2) [of "1 / 5" 2] by (simp add: eval_nat_numeral)
  have l239: "1 / 239 - 1 / 40955757 \<le> arctan (1 / 239)"
    using arctan_partial_sums(1) [of "1 / 239" 1] by (simp add: eval_nat_numeral)
  have u239: "arctan (1 / 239) \<le> 1 / 239"
    using arctan_partial_sums(2) [of "1 / 239" 0] by simp
  show "3.14159 < pi"
    unfolding m using l5 u239 by simp
  show "pi < 3.1415928"
    unfolding m using u5 l239 by simp
qed

subsection \<open>The two-point trajectory\<close>

lemma haversine_equator_degree:
  assumes "latitude p = 0" "longitude p = 0" "latitude q = 0" "longitude q = 1"
  shows "haversine p q = 6371 * pi / 180"
proof -
  have "cosAngle 0 0 0 1 = cos (pi / 180)"
    by (simp add: cosAngle_def)
  moreover have "arccos (cos (pi / 180)) = pi / 180"
    using pi_gt_zero by (intro arccos_cos) simp_all
  ultimately show ?thesis
    using assms by (simp add: haversine_arccos)
qed

lemma js_rem_450: "js_rem 450 360 = 90"
proof -
  have "\<lfloor>450 / 360 :: real\<rfloor> = 1" by linarith
  then show ?thesis by (simp add: js_rem_def)
qed

lemma bearing_equator_degree:
  assumes "latitude p = 0" "longitude p = 0" "latitude q = 0" "longitude q = 1"
  shows "bearing p q = 90"
proof -
  have "0 < sin (pi / 180)"
    using pi_gt_zero by (intro sin_gt_zero) simp_all
  then have at: "Math_atan2 (sin (pi / 180)) 0 = pi / 2"
    by (simp add: Math_atan2_def)
  have "bearing p q = js_rem ((Math_atan2 (sin (pi / 180)) 0 * 180) / pi + 360) 360"
    using assms by (simp add: bearing_def Let_def)
  also have "\<dots> = js_rem 450 360"
    unfolding at by simp
  finally show ?thesis
    by (simp only: js_rem_450)
qed

text \<open>
  Claim C8. For the trajectory of two points on the equator, the first at longitude 0 and
  the second at longitude 1, with timestamps that parse to times one hour apart, the
  builder returns a single record: its \<open>distance\<close> is \<open>6371 * pi / 180\<close>, which differs from
  111.19 by less than 0.005; the speed before the clamp is that same number (the distance
  over one hour) and the recorded \<open>speed\<close> is exactly 10; the \<open>direction\<close> is exactly 90.
\<close>

theorem drift_one_degree_east:
  assumes "latitude p = 0" "longitude p = 0" "latitude q = 0" "longitude q = 1"
    and "getTime (timestamp p) = Some t" "getTime (timestamp q) = Some (t + 3600000)"
  shows "\<exists>r. generateMockDriftData getTime [p, q] = Some [r] \<and>
           distance r = 6371 * pi / 180 \<and> \<bar>distance r - 111.19\<bar> < 0.005 \<and>
           rawSpeed getTime p q = 6371 * pi / 180 \<and> speed r = 10 \<and>
           direction r = 90"
proof -
  have hv: "haversine p q = 6371 * pi / 180"
    using assms(1-4) by (rule haversine_equator_degree)
  have near: "\<bar>6371 * pi / 180 - 111.19\<bar> < 0.005"
    using pi_bounds by (simp add: abs_less_iff)
  have big: "10 \<le> 6371 * pi / 180"
    using pi_bounds(1) by simp
  have raw: "rawSpeed getTime p q = 6371 * pi / 180"
    using assms(5,6) by (simp add: rawSpeed_def hoursBetween_def hv)
  have res: "generateMockDriftData getTime [p, q] = Some [driftRecord getTime [p, q] 0]"
    by (simp add: generateMockDriftData_eq)
  have d: "distance (driftRecord getTime [p, q] 0) = 6371 * pi / 180"
    by (simp add: driftRecord_def pathLength_def hv)
  have s: "speed (driftRecord getTime [p, q] 0) = 10"
    using big by (simp add: driftRecord_def raw)
  have b: "direction (driftRecord getTime [p, q] 0) = 90"
    using assms(1-4) by (simp add: driftRecord_def bearing_equator_degree)
  show ?thesis
  proof (intro exI conjI)
    show "generateMockDriftData getTime [p, q] = Some [driftRecord getTime [p, q] 0]"
      by (rule res)
    show "distance (driftRecord getTime [p, q] 0) = 6371 * pi / 180"
      by (rule d)
    show "\<bar>distance (driftRecord getTime [p, q] 0) - 111.19\<bar> < 0.005"
      unfolding d by (rule near)
    show "rawSpeed getTime p q = 6371 * pi / 180"
      by (rule raw)
    show "speed (driftRecord getTime [p, q] 0) = 10"
      by (rule s)
    show "direction (driftRecord getTime [p, q] 0) = 90"
      by (rule b)
  qed
qed

theorem drift_one_degree_east_witness:
  "latitude (pointAt 0 0 ''0h'') = 0 \<and> longitude (pointAt 0 0 ''0h'') = 0 \<and>
   latitude (pointAt 0 1 ''1h'') = 0 \<and> longitude (pointAt 0 1 ''1h'') = 1 \<and>
   exampleClock (timestamp (pointAt 0 0 ''0h'')) = Some 0 \<and>
   exampleClock (timestamp (pointAt 0 1 ''1h'')) = Some (0 + 3600000) \<and>
   (\<exists>r. generateMockDriftData exampleClock [pointAt 0 0 ''0h'', pointAt 0 1 ''1h''] = Some [r] \<and>
      distance r = 6371 * pi / 180 \<and> \<bar>distance r - 111.19\<bar> < 0.005 \<and>
      rawSpeed exampleClock (pointAt 0 0 ''0h'') (pointAt 0 1 ''1h'') = 6371 * pi / 180 \<and>
      speed r = 10 \<and> direction r = 90)"
proof -
  have a: "latitude (pointAt 0 0 ''0h'') = 0" "longitude (pointAt 0 0 ''0h'') = 0"
    "latitude (pointAt 0 1 ''1h'') = 0" "longitude (pointAt 0 1 ''1h'') = 1"
    by (simp_all add: pointAt_def)
  have t: "exampleClock (timestamp (pointAt 0 0 ''0h'')) = Some 0"
    "exampleClock (timestamp (pointAt 0 1 ''1h'')) = Some (0 + 3600000)"
    by (simp_all add: pointAt_def exampleClock_def)
  from drift_one_degree_east [OF a t] a t show ?thesis
    by (intro conjI)
qed

section \<open>When the Haversine distance vanishes\<close>








section \<open>The profile grouper and the store\<close>

declare windows.simps [simp del]
declare profilesLoop.simps [simp del]

subsection \<open>Windows and the sort key\<close>

lemma windows_Nil: "windows n [] = []"
  by (simp add: windows.simps)

lemma windows_drop_step:
  assumes "0 < n" "i < length xs"
  shows "windows n (drop i xs) = take n (drop i xs) # windows n (drop (i + n) xs)"
proof -
  have "drop i xs \<noteq> []" using assms(2) by simp
  then have "windows n (drop i xs) = take n (drop i xs) # windows n (drop n (drop i xs))"
    using assms(1) by (subst windows.simps) simp
  then show ?thesis by (simp add: add.commute)
qed

lemma windows_subset: "w \<in> set (windows n xs) \<Longrightarrow> set w \<subseteq> set xs"
proof (induction n xs rule: windows.induct)
  case (1 n xs)
  show ?case
  proof (cases "n = 0 \<or> xs = []")
    case True
    with "1.prems" show ?thesis by (simp add: windows.simps)
  next
    case False
    with "1.prems" have "w = take n xs \<or> w \<in> set (windows n (drop n xs))"
      by (subst (asm) windows.simps) simp
    then show ?thesis
    proof
      assume "w = take n xs"
      then show ?thesis by (simp add: set_take_subset)
    next
      assume "w \<in> set (windows n (drop n xs))"
      then have "set w \<subseteq> set (drop n xs)" using False by (intro "1.IH") simp_all
      then show ?thesis using set_drop_subset [of n xs] by blast
    qed
  qed
qed

lemma insort_key_agree:
  assumes "f x = g x" "\<And>y. y \<in> set ys \<Longrightarrow> f y = g y"
  shows "insort_key f x ys = insort_key g x ys"
  using assms by (induction ys) simp_all

lemma sort_key_agree:
  assumes "\<And>x. x \<in> set xs \<Longrightarrow> f x = g x"
  shows "sort_key f xs = sort_key g xs"
  using assms
proof (induction xs)
  case Nil
  then show ?case by simp
next
  case (Cons x xs)
  have "sort_key f xs = sort_key g xs" by (rule Cons.IH) (simp add: Cons.prems)
  moreover have "insort_key f x (sort_key g xs) = insort_key g x (sort_key g xs)"
    by (rule insort_key_agree) (simp_all add: Cons.prems)
  ultimately show ?case by simp
qed

subsection \<open>One run of the loop\<close>

lemma profilesLoop_exit:
  assumes "\<not> i < length (h ! validPoints)"
  shows "profilesLoop validPoints i profiles h = (profiles, h)"
  using assms by (subst profilesLoop.simps) simp

lemma profilesLoop_step:
  assumes "validPoints < length h" "i < length (h ! validPoints)"
  shows "profilesLoop validPoints i profiles h =
         (if 1 < length (take profileSize (drop i (h ! validPoints)))
          then profilesLoop validPoints (i + profileSize) (profiles @ [length h])
                 (h @ [sort_key depthKey (take profileSize (drop i (h ! validPoints)))])
          else profilesLoop validPoints (i + profileSize) profiles
                 (h @ [take profileSize (drop i (h ! validPoints))]))"
  using assms
  by (subst profilesLoop.simps)
    (simp add: array_slice_def array_sort_def h_alloc_def slice_def nth_append)

lemma profilesLoop_result:
  assumes "validPoints < length h" "set profiles \<subseteq> {..<length h}"
  shows "\<exists>profiles' ext.
           profilesLoop validPoints i profiles h = (profiles', h @ ext) \<and>
           map (\<lambda>a. (h @ ext) ! a) profiles' =
             map (\<lambda>a. h ! a) profiles @
             map (sort_key depthKey)
               (filter (\<lambda>w. 1 < length w) (windows profileSize (drop i (h ! validPoints))))"
  using assms
proof (induction "length (h ! validPoints) - i" arbitrary: i profiles h rule: less_induct)
  case less
  let ?xs = "h ! validPoints"
  have old: "map (\<lambda>a. (h @ e) ! a) profiles = map (\<lambda>a. h ! a) profiles" for e
    using less.prems(2) by (auto simp: nth_append)
  show ?case
  proof (cases "i < length ?xs")
    case False
    then have "profilesLoop validPoints i profiles h = (profiles, h @ [])"
      by (simp add: profilesLoop_exit)
    moreover have "windows profileSize (drop i ?xs) = []"
      using False by (simp add: windows_Nil)
    ultimately show ?thesis
      by (intro exI [of _ profiles] exI [of _ "[]"]) simp
  next
    case True
    let ?w = "take profileSize (drop i ?xs)"
    have win: "windows profileSize (drop i ?xs) = ?w # windows profileSize (drop (i + profileSize) ?xs)"
      using True by (intro windows_drop_step) (simp_all add: profileSize_def)
    have dec: "length ?xs - (i + profileSize) < length ?xs - i"
      using True by (simp add: profileSize_def)
    show ?thesis
    proof (cases "1 < length ?w")
      case long: True
      let ?h = "h @ [sort_key depthKey ?w]"
      have same: "?h ! validPoints = ?xs"
        using less.prems(1) by (simp add: nth_append)
      have "\<exists>profiles' ext.
           profilesLoop validPoints (i + profileSize) (profiles @ [length h]) ?h = (profiles', ?h @ ext) \<and>
           map (\<lambda>a. (?h @ ext) ! a) profiles' =
             map (\<lambda>a. ?h ! a) (profiles @ [length h]) @
             map (sort_key depthKey)
               (filter (\<lambda>w. 1 < length w)
                  (windows profileSize (drop (i + profileSize) (?h ! validPoints))))"
        using less.prems dec by (intro less.hyps) (auto simp: same)
      then obtain profiles' ext where
        run: "profilesLoop validPoints (i + profileSize) (profiles @ [length h]) ?h = (profiles', ?h @ ext)"
        and vals: "map (\<lambda>a. (?h @ ext) ! a) profiles' =
             map (\<lambda>a. ?h ! a) (profiles @ [length h]) @
             map (sort_key depthKey)
               (filter (\<lambda>w. 1 < length w)
                  (windows profileSize (drop (i + profileSize) (?h ! validPoints))))"
        by blast
      have "profilesLoop validPoints i profiles h =
            profilesLoop validPoints (i + profileSize) (profiles @ [length h]) ?h"
        using profilesLoop_step [OF less.prems(1) True, of profiles] long by (simp only: if_True)
      then have "profilesLoop validPoints i profiles h = (profiles', h @ (sort_key depthKey ?w # ext))"
        by (simp only: run) simp
      moreover have "map (\<lambda>a. (h @ (sort_key depthKey ?w # ext)) ! a) profiles' =
             map (\<lambda>a. h ! a) profiles @
             map (sort_key depthKey) (filter (\<lambda>w. 1 < length w) (windows profileSize (drop i ?xs)))"
        using vals long old [of "[sort_key depthKey ?w]"] by (simp add: win same)
      ultimately show ?thesis by blast
    next
      case short: False
      let ?h = "h @ [?w]"
      have same: "?h ! validPoints = ?xs"
        using less.prems(1) by (simp add: nth_append)
      have "\<exists>profiles' ext.
           profilesLoop validPoints (i + profileSize) profiles ?h = (profiles', ?h @ ext) \<and>
           map (\<lambda>a. (?h @ ext) ! a) profiles' =
             map (\<lambda>a. ?h ! a) profiles @
             map (sort_key depthKey)
               (filter (\<lambda>w. 1 < length w)
                  (windows profileSize (drop (i + profileSize) (?h ! validPoints))))"
        using less.prems dec by (intro less.hyps) (auto simp: same)
      then obtain profiles' ext where
        run: "profilesLoop validPoints (i + profileSize) profiles ?h = (profiles', ?h @ ext)"
        and vals: "map (\<lambda>a. (?h @ ext) ! a) profiles' =
             map (\<lambda>a. ?h ! a) profiles @
             map (sort_key depthKey)
               (filter (\<lambda>w. 1 < length w)
                  (windows profileSize (drop (i + profileSize) (?h ! validPoints))))"
        by blast
      have "profilesLoop validPoints i profiles h =
            profilesLoop validPoints (i + profileSize) profiles ?h"
        using profilesLoop_step [OF less.prems(1) True, of profiles] short by (simp only: if_False)
      then have "profilesLoop validPoints i profiles h = (profiles', h @ (?w # ext))"
        by (simp only: run) simp
      moreover have "map (\<lambda>a. (h @ (?w # ext)) ! a) profiles' =
             map (\<lambda>a. h ! a) profiles @
             map (sort_key depthKey) (filter (\<lambda>w. 1 < length w) (windows profileSize (drop i ?xs)))"
        using vals short old [of "[?w]"] by (simp add: win same)
      ultimately show ?thesis by blast
    qed
  qed
qed

subsection \<open>The whole grouping computation\<close>

lemma ProfileOverlayChart_profiles_result:
  assumes "points < length h"
  shows "\<exists>ext. snd (ProfileOverlayChart_profiles points h) = h @ ext \<and>
           drawnProfiles (ProfileOverlayChart_profiles points h) =
             map (sort_key depthKey)
               (filter (\<lambda>w. 1 < length w)
                  (windows profileSize (filter validPoint (h ! points))))"
proof (cases "h ! points = []")
  case True
  then have "ProfileOverlayChart_profiles points h = (None, h @ [])"
    by (simp add: ProfileOverlayChart_profiles_def)
  then show ?thesis
    using True by (intro exI [of _ "[]"]) (simp add: drawnProfiles_def windows_Nil)
next
  case False
  let ?vs = "filter validPoint (h ! points)"
  let ?h = "h @ [?vs]"
  show ?thesis
  proof (cases "?vs = []")
    case True
    then have "ProfileOverlayChart_profiles points h = (None, h @ [[]])"
      using False by (simp add: ProfileOverlayChart_profiles_def array_filter_def h_alloc_def)
    then show ?thesis
      using True by (intro exI [of _ "[[]]"]) (simp add: drawnProfiles_def windows_Nil)
  next
    case some: False
    have "\<exists>profiles' ext.
           profilesLoop (length h) 0 [] ?h = (profiles', ?h @ ext) \<and>
           map (\<lambda>a. (?h @ ext) ! a) profiles' =
             map (\<lambda>a. ?h ! a) [] @
             map (sort_key depthKey)
               (filter (\<lambda>w. 1 < length w) (windows profileSize (drop 0 (?h ! length h))))"
      by (rule profilesLoop_result) simp_all
    then obtain profiles' ext where
      run: "profilesLoop (length h) 0 [] ?h = (profiles', ?h @ ext)"
      and vals: "map (\<lambda>a. (?h @ ext) ! a) profiles' =
             map (sort_key depthKey) (filter (\<lambda>w. 1 < length w) (windows profileSize ?vs))"
      by auto
    have "ProfileOverlayChart_profiles points h = (Some profiles', h @ (?vs # ext))"
      using False some run
      by (simp add: ProfileOverlayChart_profiles_def array_filter_def h_alloc_def)
    moreover have "map (\<lambda>a. (h @ (?vs # ext)) ! a) profiles' =
             map (sort_key depthKey) (filter (\<lambda>w. 1 < length w) (windows profileSize ?vs))"
      using vals by simp
    ultimately show ?thesis
      by (intro exI [of _ "?vs # ext"]) (simp add: drawnProfiles_def)
  qed
qed

lemma grouper_refines:
  "map (sort_key depthKey)
     (filter (\<lambda>w. 1 < length w) (windows profileSize (filter validPoint xs))) =
   ProfileGrouper 5 xs"
proof -
  let ?ws = "filter (\<lambda>w. \<not> length w < 2) (windows 5 (filter validPoint xs))"
  have key: "sort_key depthKey w = sort_key (\<lambda>p. the (depth p)) w" if "w \<in> set ?ws" for w
  proof (rule sort_key_agree)
    fix p assume "p \<in> set w"
    moreover have "set w \<subseteq> set (filter validPoint xs)"
      using that by (intro windows_subset [of w 5]) simp
    ultimately have "validPoint p" by auto
    then show "depthKey p = the (depth p)"
      by (auto simp: validPoint_def depthKey_def)
  qed
  have p: "(\<lambda>w :: 'a FloatTrajectoryPoint_scheme list. 1 < length w) = (\<lambda>w. \<not> length w < 2)"
    by (rule ext) auto
  have v: "(validPoint :: 'a FloatTrajectoryPoint_scheme \<Rightarrow> bool) =
           (\<lambda>p. \<not> (temperature p = None \<or> depth p = None))"
    by (rule ext) (simp add: validPoint_def)
  have "map (sort_key depthKey) ?ws = map (sort_key (\<lambda>p. the (depth p))) ?ws"
    by (rule map_cong [OF refl]) (rule key)
  then show ?thesis
    unfolding ProfileGrouper_def profileSize_def p v [symmetric] .
qed

lemma windows_twelve:
  assumes "length xs = 12"
  shows "windows 5 xs = [take 5 xs, take 5 (drop 5 xs), drop 10 xs]"
proof -
  have a: "windows 5 (drop 0 xs) = take 5 (drop 0 xs) # windows 5 (drop (0 + 5) xs)"
    using assms by (intro windows_drop_step) simp_all
  have b: "windows 5 (drop 5 xs) = take 5 (drop 5 xs) # windows 5 (drop (5 + 5) xs)"
    using assms by (intro windows_drop_step) simp_all
  have c: "windows 5 (drop 10 xs) = take 5 (drop 10 xs) # windows 5 (drop (10 + 5) xs)"
    using assms by (intro windows_drop_step) simp_all
  have d: "drop 15 xs = []" "take 5 (drop 10 xs) = drop 10 xs"
    using assms by simp_all
  show ?thesis
    using a b c d by (simp add: windows_Nil)
qed

subsection \<open>The drift series builder on the store\<close>

lemma driftCallbackH_eq:
  "driftCallbackH getTime tp point index h =
     (case driftCallback getTime (h ! tp) point index of
        None \<Rightarrow> None
      | Some r \<Rightarrow> Some (r, h @ [slice (h ! tp) 0 (index + 2)]))"
  by (simp add: driftCallbackH_def array_slice_def h_alloc_def split: option.split)

lemma map_idxH_pure:
  assumes "tp < length h" "map_idx (driftCallback getTime (h ! tp)) xs i = Some rs"
  shows "\<exists>ext. map_idxH (driftCallbackH getTime tp) xs i h = Some (rs, h @ ext)"
  using assms
proof (induction xs arbitrary: i h rs)
  case Nil
  then show ?case by (intro exI [of _ "[]"]) simp
next
  case (Cons x xs)
  from Cons.prems(2) obtain r rs' where
    r: "driftCallback getTime (h ! tp) x i = Some r"
    and rs': "map_idx (driftCallback getTime (h ! tp)) xs (Suc i) = Some rs'"
    and rs: "rs = r # rs'"
    by (auto split: option.splits)
  let ?h = "h @ [slice (h ! tp) 0 (i + 2)]"
  have same: "?h ! tp = h ! tp"
    using Cons.prems(1) by (simp add: nth_append)
  have "\<exists>ext. map_idxH (driftCallbackH getTime tp) xs (Suc i) ?h = Some (rs', ?h @ ext)"
    using Cons.prems(1) rs' by (intro Cons.IH) (simp_all add: nth_append)
  then obtain ext where "map_idxH (driftCallbackH getTime tp) xs (Suc i) ?h = Some (rs', ?h @ ext)"
    by blast
  then have "map_idxH (driftCallbackH getTime tp) (x # xs) i h =
             Some (rs, h @ (slice (h ! tp) 0 (i + 2) # ext))"
    using r rs by (simp add: driftCallbackH_eq split: option.split)
  then show ?case by blast
qed

lemma generateMockDriftDataH_result:
  assumes "tp < length h"
  shows "\<exists>rs ext. generateMockDriftDataH getTime tp h = Some (rs, h @ ext) \<and>
           generateMockDriftData getTime (h ! tp) = Some rs"
proof -
  let ?xs = "h ! tp"
  let ?h = "h @ [slice ?xs 1 (length ?xs)]"
  obtain rs where rs: "generateMockDriftData getTime ?xs = Some rs"
    by (simp add: generateMockDriftData_eq)
  have same: "?h ! tp = ?xs"
    using assms by (simp add: nth_append)
  have "map_idx (driftCallback getTime (?h ! tp)) (slice ?xs 1 (length ?xs)) 0 = Some rs"
    using rs assms by (simp add: generateMockDriftData_def nth_append)
  then have "\<exists>ext. map_idxH (driftCallbackH getTime tp) (slice ?xs 1 (length ?xs)) 0 ?h = Some (rs, ?h @ ext)"
    using assms by (intro map_idxH_pure) simp_all
  then obtain ext where
    "map_idxH (driftCallbackH getTime tp) (slice ?xs 1 (length ?xs)) 0 ?h = Some (rs, ?h @ ext)"
    by blast
  then have "generateMockDriftDataH getTime tp h = Some (rs, h @ (slice ?xs 1 (length ?xs) # ext))"
    by (simp add: generateMockDriftDataH_def array_slice_def h_alloc_def)
  with rs show ?thesis by blast
qed

section \<open>The claims about the profile grouper and the store\<close>

text \<open>The model runs: the groups of the twelve example points, by their ids.\<close>

lemma twelvePoints_profiles:
  "map (map point_id) (drawnProfiles (ProfileOverlayChart_profiles 0 [twelvePoints])) =
     [[5, 4, 3, 2, 1], [10, 9, 8, 7, 6], [12, 11]]"
  by (simp add: drawnProfiles_def ProfileOverlayChart_profiles_def profilesLoop.simps
      array_filter_def array_slice_def array_sort_def h_alloc_def slice_def profileSize_def
      validPoint_def depthKey_def twelvePoints_def profilePoint_def nth_append)

text \<open>
  Claim C5. For a mounted chart whose \<^verbatim>\<open>trajectory.points\<close> is an allocated array, the
  profiles that the effect draws are those of the grouper of the specification with window
  size 5: the points with both readings, cut into consecutive windows of 5 (the last may be
  shorter), without the windows of fewer than 2 points, each window sorted ascending by
  depth. For 12 points that all have both readings there are exactly three groups: the
  sorted points 0-4, the sorted points 5-9 and the sorted points 10-11, of sizes 5, 5 and 2,
  each ascending in depth.
\<close>

theorem profile_grouping:
  assumes "points < length h"
  shows "drawnProfiles (ProfileOverlayChart_profiles points h) = ProfileGrouper 5 (h ! points) \<and>
         (length (h ! points) = 12 \<and> list_all validPoint (h ! points) \<longrightarrow>
            (\<exists>g1 g2 g3.
               drawnProfiles (ProfileOverlayChart_profiles points h) = [g1, g2, g3] \<and>
               g1 = sort_key depthKey (take 5 (h ! points)) \<and>
               g2 = sort_key depthKey (take 5 (drop 5 (h ! points))) \<and>
               g3 = sort_key depthKey (drop 10 (h ! points)) \<and>
               length g1 = 5 \<and> length g2 = 5 \<and> length g3 = 2 \<and>
               sorted (map depthKey g1) \<and> sorted (map depthKey g2) \<and> sorted (map depthKey g3)))"
proof -
  let ?xs = "h ! points"
  have drawn: "drawnProfiles (ProfileOverlayChart_profiles points h) =
      map (sort_key depthKey)
        (filter (\<lambda>w. 1 < length w) (windows profileSize (filter validPoint ?xs)))"
    using ProfileOverlayChart_profiles_result [OF assms] by blast
  have twelve: "drawnProfiles (ProfileOverlayChart_profiles points h) =
      [sort_key depthKey (take 5 ?xs), sort_key depthKey (take 5 (drop 5 ?xs)),
       sort_key depthKey (drop 10 ?xs)]"
    if len: "length ?xs = 12" and valid: "list_all validPoint ?xs"
  proof -
    have "filter validPoint ?xs = ?xs"
      using valid by (simp add: list_all_iff)
    then show ?thesis
      unfolding drawn using len by (simp add: profileSize_def windows_twelve)
  qed
  show ?thesis
  proof (intro conjI impI)
    show "drawnProfiles (ProfileOverlayChart_profiles points h) = ProfileGrouper 5 ?xs"
      unfolding drawn by (rule grouper_refines)
  next
    assume a: "length ?xs = 12 \<and> list_all validPoint ?xs"
    then have "drawnProfiles (ProfileOverlayChart_profiles points h) =
      [sort_key depthKey (take 5 ?xs), sort_key depthKey (take 5 (drop 5 ?xs)),
       sort_key depthKey (drop 10 ?xs)]"
      by (intro twelve) simp_all
    then show "\<exists>g1 g2 g3.
               drawnProfiles (ProfileOverlayChart_profiles points h) = [g1, g2, g3] \<and>
               g1 = sort_key depthKey (take 5 ?xs) \<and>
               g2 = sort_key depthKey (take 5 (drop 5 ?xs)) \<and>
               g3 = sort_key depthKey (drop 10 ?xs) \<and>
               length g1 = 5 \<and> length g2 = 5 \<and> length g3 = 2 \<and>
               sorted (map depthKey g1) \<and> sorted (map depthKey g2) \<and> sorted (map depthKey g3)"
      using a by simp
  qed
qed

theorem profile_grouping_witness:
  "(0::nat) < length [twelvePoints] \<and>
   length ([twelvePoints] ! 0) = 12 \<and> list_all validPoint ([twelvePoints] ! 0) \<and>
   drawnProfiles (ProfileOverlayChart_profiles 0 [twelvePoints]) = ProfileGrouper 5 twelvePoints \<and>
   (\<exists>g1 g2 g3.
      drawnProfiles (ProfileOverlayChart_profiles 0 [twelvePoints]) = [g1, g2, g3] \<and>
      length g1 = 5 \<and> length g2 = 5 \<and> length g3 = 2 \<and>
      sorted (map depthKey g1) \<and> sorted (map depthKey g2) \<and> sorted (map depthKey g3)) \<and>
   map (map point_id) (drawnProfiles (ProfileOverlayChart_profiles 0 [twelvePoints])) =
     [[5, 4, 3, 2, 1], [10, 9, 8, 7, 6], [12, 11]]"
proof -
  have a: "(0::nat) < length [twelvePoints]" by simp
  have b: "length ([twelvePoints] ! 0) = 12" by (simp add: twelvePoints_def)
  have c: "list_all validPoint ([twelvePoints] ! 0)"
    by (simp add: twelvePoints_def profilePoint_def validPoint_def)
  from profile_grouping [OF a] b c
  have "drawnProfiles (ProfileOverlayChart_profiles 0 [twelvePoints]) = ProfileGrouper 5 ([twelvePoints] ! 0)"
    and "\<exists>g1 g2 g3.
      drawnProfiles (ProfileOverlayChart_profiles 0 [twelvePoints]) = [g1, g2, g3] \<and>
      g1 = sort_key depthKey (take 5 ([twelvePoints] ! 0)) \<and>
      g2 = sort_key depthKey (take 5 (drop 5 ([twelvePoints] ! 0))) \<and>
      g3 = sort_key depthKey (drop 10 ([twelvePoints] ! 0)) \<and>
      length g1 = 5 \<and> length g2 = 5 \<and> length g3 = 2 \<and>
      sorted (map depthKey g1) \<and> sorted (map depthKey g2) \<and> sorted (map depthKey g3)"
    by blast+
  then show ?thesis
    using a b c twelvePoints_profiles by auto
qed

text \<open>
  Claim C9. Neither computation changes an array that existed before it ran: the store
  after the run is the store before it, extended by newly allocated arrays. In particular
  the input array \<^verbatim>\<open>trajectory.points\<close> has the same elements in the same order afterwards.
  The in-place sort of the grouper only ever overwrites a slice allocated in the same
  iteration. The drift series builder on the store returns the records of the builder on
  the contents of the input array.
\<close>

theorem inputs_not_mutated:
  assumes "points < length h"
  shows "(\<exists>ext. snd (ProfileOverlayChart_profiles points h) = h @ ext) \<and>
         snd (ProfileOverlayChart_profiles points h) ! points = h ! points \<and>
         (\<exists>rs ext. generateMockDriftDataH getTime points h = Some (rs, h @ ext) \<and>
            (h @ ext) ! points = h ! points \<and>
            generateMockDriftData getTime (h ! points) = Some rs)"
proof -
  obtain ext where p: "snd (ProfileOverlayChart_profiles points h) = h @ ext"
    using ProfileOverlayChart_profiles_result [OF assms] by blast
  obtain rs ext' where d: "generateMockDriftDataH getTime points h = Some (rs, h @ ext')"
    "generateMockDriftData getTime (h ! points) = Some rs"
    using generateMockDriftDataH_result [OF assms, of getTime] by blast
  have keep: "(h @ e) ! points = h ! points" for e
    using assms by (simp add: nth_append)
  show ?thesis
    using p d keep by auto
qed

theorem inputs_not_mutated_witness:
  "(0::nat) < length [twelvePoints] \<and>
   (\<exists>ext. snd (ProfileOverlayChart_profiles 0 [twelvePoints]) = [twelvePoints] @ ext) \<and>
   snd (ProfileOverlayChart_profiles 0 [twelvePoints]) ! 0 = twelvePoints \<and>
   (\<exists>rs ext. generateMockDriftDataH exampleClock 0 [twelvePoints] = Some (rs, [twelvePoints] @ ext) \<and>
      generateMockDriftData exampleClock twelvePoints = Some rs)"
proof -
  have a: "(0::nat) < length [twelvePoints]" by simp
  show ?thesis
    using inputs_not_mutated [OF a, of exampleClock] by auto
qed

end
